theory Spec2Isabelle
  imports
    Complex_Main
    "HOL-Library.Sublist"
    "HOL-Library.Char_ord"
    "HOL-Library.List_Lexorder"
    "HOL-Library.Product_Lexorder"
    "HOL-Library.Option_ord"
begin

section \<open>Text primitives of the host language\<close>

text \<open>
  Text is a list of characters. The case mappings, the whitespace class and the word
  class below are the ASCII part of Python's \<^verbatim>\<open>str.lower\<close>, \<^verbatim>\<open>str.upper\<close>,
  \<^verbatim>\<open>str.split\<close> and of the \<^verbatim>\<open>re\<close> module; characters above 127 are left
  unchanged by the case mappings and belong to neither class. Scores are Python floats
  in the source and real numbers here.
\<close>

definition upper_letters :: string where
  "upper_letters = ''ABCDEFGHIJKLMNOPQRSTUVWXYZ''"

definition lower_letters :: string where
  "lower_letters = ''abcdefghijklmnopqrstuvwxyz''"

definition lower_char :: "char \<Rightarrow> char" where
  "lower_char c = (case map_of (zip upper_letters lower_letters) c of None \<Rightarrow> c | Some d \<Rightarrow> d)"

definition upper_char :: "char \<Rightarrow> char" where
  "upper_char c = (case map_of (zip lower_letters upper_letters) c of None \<Rightarrow> c | Some d \<Rightarrow> d)"

definition py_lower :: "string \<Rightarrow> string" where
  "py_lower s = map lower_char s"

definition py_upper :: "string \<Rightarrow> string" where
  "py_upper s = map upper_char s"

definition is_space :: "char \<Rightarrow> bool" where
  "is_space c \<longleftrightarrow> c \<in> set [CHR 0x09, CHR 0x0A, CHR 0x0B, CHR 0x0C, CHR 0x0D,
                              CHR 0x1C, CHR 0x1D, CHR 0x1E, CHR 0x1F, CHR 0x20]"

text \<open>Maximal non-empty runs of characters satisfying \<open>P\<close>, left to right.\<close>

fun runs_acc :: "(char \<Rightarrow> bool) \<Rightarrow> string \<Rightarrow> string \<Rightarrow> string list" where
  "runs_acc P acc [] = (if acc = [] then [] else [rev acc])"
| "runs_acc P acc (c # cs) =
     (if P c then runs_acc P (c # acc) cs
      else (if acc = [] then [] else [rev acc]) @ runs_acc P [] cs)"

definition runs :: "(char \<Rightarrow> bool) \<Rightarrow> string \<Rightarrow> string list" where
  "runs P s = runs_acc P [] s"

text \<open>\<^verbatim>\<open>s.split()\<close>: the maximal runs of non-whitespace characters.\<close>

definition py_split :: "string \<Rightarrow> string list" where
  "py_split s = runs (\<lambda>c. \<not> is_space c) s"

text \<open>\<^verbatim>\<open>w in s\<close> on strings: \<open>w\<close> occurs in \<open>s\<close> as a contiguous block.\<close>

definition py_in :: "string \<Rightarrow> string \<Rightarrow> bool" where
  "py_in w s \<longleftrightarrow> sublist w s"

text \<open>\<^verbatim>\<open>sep.join(xs)\<close>.\<close>

fun py_join :: "string \<Rightarrow> string list \<Rightarrow> string" where
  "py_join sep [] = []"
| "py_join sep [x] = x"
| "py_join sep (x # y # ys) = x @ sep @ py_join sep (y # ys)"

text \<open>\<^verbatim>\<open>xs[:k]\<close>: a negative \<open>k\<close> counts from the end.\<close>

definition py_take :: "int \<Rightarrow> 'a list \<Rightarrow> 'a list" where
  "py_take k xs = (if 0 \<le> k then take (nat k) xs else take (length xs - nat (- k)) xs)"

datatype error =
    KeyError string
  | IndexError
  | ValueError string
  | ImportError
  | OtherError string
  | RuntimeError error

section \<open>Weighted ranker: priority score\<close>

text \<open>
  \<^verbatim>\<open>HybridRetriever._calculate_priority_score\<close>. The argument is \<open>None\<close> for a missing
  (null) priority. A falsy priority (\<open>None\<close> or the empty string) takes the prefix
  \<^verbatim>\<open>"P3"\<close>; otherwise the prefix is \<^verbatim>\<open>priority.split()[0].upper()\<close>, which raises
  \<^verbatim>\<open>IndexError\<close> when the string has no token.
\<close>

definition priority_scores :: "(string \<times> real) list" where
  "priority_scores = [(''P1'', 1.0), (''P2'', 0.8), (''P3'', 0.6), (''P4'', 0.4)]"

definition priority_prefix :: "string option \<Rightarrow> error + string" where
  "priority_prefix priority =
     (case priority of
        None \<Rightarrow> Inr ''P3''
      | Some p \<Rightarrow>
          if p = [] then Inr ''P3''
          else (case py_split p of [] \<Rightarrow> Inl IndexError | t # _ \<Rightarrow> Inr (py_upper t)))"

definition calculate_priority_score :: "string option \<Rightarrow> error + real" where
  "calculate_priority_score priority =
     (case priority_prefix priority of
        Inl e \<Rightarrow> Inl e
      | Inr pre \<Rightarrow> Inr (case map_of priority_scores pre of None \<Rightarrow> 0.6 | Some v \<Rightarrow> v))"

section \<open>Document store\<close>

text \<open>
  \<^verbatim>\<open>TestCaseStore\<close> keeps one SQLite table \<^verbatim>\<open>test_cases\<close> with primary key \<^verbatim>\<open>id\<close>.
  The table is a list of rows; the columns \<^verbatim>\<open>tags\<close> and \<^verbatim>\<open>components\<close> hold the
  lists whose \<^verbatim>\<open>json.dumps\<close> text the database stores, and the text is recomputed where
  SQL reads it. Timestamps are natural numbers supplied by the caller's clock.
\<close>

datatype step = StepStr string | StepObj "string option" "string option"

record test_case =
  tc_id :: "string option"
  tc_title :: "string option"
  tc_description :: "string option"
  tc_steps :: "step list"
  tc_expected_result :: "string option"
  tc_priority :: "string option"
  tc_tags :: "string list"
  tc_preconditions :: "string list"
  tc_source_file :: "string option"
  tc_created_by :: "string option"

record metadata =
  preconditions :: "string list"
  original_file :: string
  created_by :: string

record row =
  row_id :: string
  row_title :: string
  row_priority :: "string option"
  row_tags :: "string list"
  row_components :: "string list"
  row_text_blob :: string
  row_vector :: "real list option"
  row_metadata :: metadata
  row_created_at :: nat
  row_updated_at :: nat

type_synonym table = "row list"

text \<open>\<^verbatim>\<open>_generate_id\<close>: the first 12 hex digits of the MD5 of title and description;
  the digest function of \<^verbatim>\<open>hashlib\<close> is a parameter.\<close>

definition generate_id :: "(string \<Rightarrow> string) \<Rightarrow> test_case \<Rightarrow> string" where
  "generate_id md5_hexdigest tc =
     take 12 (md5_hexdigest
       ((case tc_title tc of None \<Rightarrow> [] | Some t \<Rightarrow> t) @
        (case tc_description tc of None \<Rightarrow> [] | Some d \<Rightarrow> d)))"

definition component_names :: "string list" where
  "component_names = [''onboarding'', ''positions'', ''graphql'', ''api'', ''ui'', ''auth'']"

definition mentions_component :: "string \<Rightarrow> bool" where
  "mentions_component s = list_ex (\<lambda>comp. py_in comp (py_lower s)) component_names"

text \<open>\<^verbatim>\<open>_extract_components\<close> ends with \<^verbatim>\<open>list(set(components))\<close>, whose order Python
  leaves open; the model keeps the last occurrence of each element, in list order.\<close>

definition extract_components :: "test_case \<Rightarrow> string list" where
  "extract_components tc =
     remdups (filter mentions_component (tc_tags tc) @ filter mentions_component (tc_preconditions tc))"

fun extract_priority :: "string list \<Rightarrow> string" where
  "extract_priority [] = ''P2''"
| "extract_priority (tag # tags) =
     (if py_upper tag \<in> set [''P0'', ''P1'', ''P2'', ''P3''] then py_upper tag
      else extract_priority tags)"

text \<open>\<^verbatim>\<open>re.search(r'P([0-3])', s)\<close>: the digit of the leftmost match.\<close>

fun search_p_digit :: "string \<Rightarrow> char option" where
  "search_p_digit (a # b # cs) =
     (if a = CHR ''P'' \<and> b \<in> set ''0123'' then Some b else search_p_digit (b # cs))"
| "search_p_digit _ = None"

definition extract_priority_from_string :: "string \<Rightarrow> string" where
  "extract_priority_from_string priority_str =
     (if priority_str = [] then ''P2''
      else (case search_p_digit (py_upper priority_str) of
              Some d \<Rightarrow> [CHR ''P'', d]
            | None \<Rightarrow>
                let priority_lower = py_lower priority_str in
                if list_ex (\<lambda>word. py_in word priority_lower) [''critical'', ''urgent'', ''p0'']
                  then ''P0''
                else if list_ex (\<lambda>word. py_in word priority_lower) [''high'', ''important'', ''p1'']
                  then ''P1''
                else if list_ex (\<lambda>word. py_in word priority_lower) [''medium'', ''normal'', ''p2'']
                  then ''P2''
                else if list_ex (\<lambda>word. py_in word priority_lower) [''low'', ''p3'']
                  then ''P3''
                else ''P2''))"

definition startswith_P :: "string \<Rightarrow> bool" where
  "startswith_P s = (case s of [] \<Rightarrow> False | c # _ \<Rightarrow> c = CHR ''P'')"

text \<open>The priority stored by \<^verbatim>\<open>store_test_case\<close>: the key's default is \<^verbatim>\<open>"P2"\<close>; a
  non-empty value not starting with \<^verbatim>\<open>P\<close> is normalised from the string; an empty value
  is taken from the tags.\<close>

definition stored_priority :: "test_case \<Rightarrow> string" where
  "stored_priority tc =
     (let priority = (case tc_priority tc of None \<Rightarrow> ''P2'' | Some p \<Rightarrow> p);
          priority = (if priority \<noteq> [] \<and> \<not> startswith_P priority
                      then extract_priority_from_string priority else priority)
      in if priority = [] \<or> \<not> startswith_P priority then extract_priority (tc_tags tc)
         else priority)"

fun step_texts :: "step \<Rightarrow> string list" where
  "step_texts (StepStr s) = [s]"
| "step_texts (StepObj t e) =
     (case t of None \<Rightarrow> [] | Some x \<Rightarrow> if x = [] then [] else [x]) @
     (case e of None \<Rightarrow> [] | Some x \<Rightarrow> if x = [] then [] else [x])"

definition truthy_text :: "string option \<Rightarrow> string list" where
  "truthy_text f = (case f of None \<Rightarrow> [] | Some x \<Rightarrow> if x = [] then [] else [x])"

definition text_blob_of :: "test_case \<Rightarrow> string" where
  "text_blob_of tc =
     py_join '' '' (truthy_text (tc_description tc) @ concat (map step_texts (tc_steps tc)) @
                 truthy_text (tc_expected_result tc))"

definition metadata_of :: "test_case \<Rightarrow> metadata" where
  "metadata_of tc =
     \<lparr> preconditions = tc_preconditions tc,
       original_file = (case tc_source_file tc of None \<Rightarrow> [] | Some f \<Rightarrow> f),
       created_by = (case tc_created_by tc of None \<Rightarrow> ''system'' | Some u \<Rightarrow> u) \<rparr>"

text \<open>\<^verbatim>\<open>INSERT OR REPLACE\<close>: a row with the same primary key is deleted, then the new
  row is inserted.\<close>

definition insert_or_replace :: "row \<Rightarrow> table \<Rightarrow> table" where
  "insert_or_replace r tbl = filter (\<lambda>old. row_id old \<noteq> row_id r) tbl @ [r]"

text \<open>\<^verbatim>\<open>store_test_case\<close> returns the new table and the id, or \<^verbatim>\<open>KeyError\<close> when the
  test case has no title (\<^verbatim>\<open>test_case["title"]\<close>).\<close>

definition store_test_case ::
  "(string \<Rightarrow> string) \<Rightarrow> nat \<Rightarrow> table \<Rightarrow> test_case \<Rightarrow> real list option \<Rightarrow> error + (table \<times> string)" where
  "store_test_case md5_hexdigest now tbl tc vec =
     (let the_id = (case tc_id tc of Some i \<Rightarrow> i | None \<Rightarrow> generate_id md5_hexdigest tc);
          tags = tc_tags tc;
          components = extract_components tc;
          text_blob = text_blob_of tc;
          priority = stored_priority tc;
          meta = metadata_of tc
      in case tc_title tc of
           None \<Rightarrow> Inl (KeyError ''title'')
         | Some t \<Rightarrow>
             Inr (insert_or_replace
                    \<lparr> row_id = the_id, row_title = t, row_priority = Some priority,
                      row_tags = tags, row_components = components, row_text_blob = text_blob,
                      row_vector = (case vec of None \<Rightarrow> None | Some v \<Rightarrow> if v = [] then None else Some v),
                      row_metadata = meta, row_created_at = now, row_updated_at = now \<rparr>
                    tbl,
                  the_id))"

definition get_test_case :: "table \<Rightarrow> string \<Rightarrow> row option" where
  "get_test_case tbl the_id = find (\<lambda>r. row_id r = the_id) tbl"

definition total_test_cases :: "table \<Rightarrow> nat" where
  "total_test_cases tbl = length tbl"

definition update_vector :: "table \<Rightarrow> string \<Rightarrow> real list \<Rightarrow> nat \<Rightarrow> table" where
  "update_vector tbl the_id v now =
     map (\<lambda>r. if row_id r = the_id then r\<lparr> row_vector := Some v, row_updated_at := now \<rparr> else r) tbl"

subsection \<open>Keyword search\<close>

text \<open>\<^verbatim>\<open>json.dumps\<close> of a list of strings (default separators, \<^verbatim>\<open>ensure_ascii\<close>).\<close>

definition hex_digit :: "nat \<Rightarrow> char" where
  "hex_digit n = ''0123456789abcdef'' ! (n mod 16)"

definition json_escape_char :: "char \<Rightarrow> string" where
  "json_escape_char c =
     (if c = CHR 0x22 then [CHR 0x5C, CHR 0x22]
      else if c = CHR 0x5C then [CHR 0x5C, CHR 0x5C]
      else if c = CHR 0x0A then [CHR 0x5C, CHR ''n'']
      else if c = CHR 0x0D then [CHR 0x5C, CHR ''r'']
      else if c = CHR 0x09 then [CHR 0x5C, CHR ''t'']
      else if c = CHR 0x08 then [CHR 0x5C, CHR ''b'']
      else if c = CHR 0x0C then [CHR 0x5C, CHR ''f'']
      else if CHR 0x20 \<le> c \<and> c \<le> CHR 0x7E then [c]
      else [CHR 0x5C, CHR ''u'', CHR ''0'', CHR ''0'',
            hex_digit (of_char c div 16), hex_digit (of_char c mod 16)])"

definition json_dumps_str :: "string \<Rightarrow> string" where
  "json_dumps_str s = [CHR 0x22] @ concat (map json_escape_char s) @ [CHR 0x22]"

definition json_dumps_strs :: "string list \<Rightarrow> string" where
  "json_dumps_strs xs = ''['' @ py_join '', '' (map json_dumps_str xs) @ '']''"

text \<open>SQLite's \<^verbatim>\<open>LOWER\<close> and \<^verbatim>\<open>LIKE\<close> (pattern first): \<^verbatim>\<open>%\<close> matches any run of
  characters, \<^verbatim>\<open>_\<close> any one character, every other pattern character itself up to
  ASCII case. The query sets no \<^verbatim>\<open>ESCAPE\<close> character.\<close>

definition sql_lower :: "string \<Rightarrow> string" where
  "sql_lower s = map lower_char s"

fun sql_like :: "string \<Rightarrow> string \<Rightarrow> bool" where
  "sql_like [] [] = True"
| "sql_like [] (c # cs) = False"
| "sql_like (p # ps) [] = (p = CHR ''%'' \<and> sql_like ps [])"
| "sql_like (p # ps) (c # cs) =
     (if p = CHR ''%'' then sql_like ps (c # cs) \<or> sql_like (p # ps) cs
      else (p = CHR ''_'' \<or> lower_char p = lower_char c) \<and> sql_like ps cs)"

definition like_param :: "string \<Rightarrow> string" where
  "like_param keyword = ''%'' @ py_lower keyword @ ''%''"

definition keyword_condition :: "row \<Rightarrow> string \<Rightarrow> bool" where
  "keyword_condition r keyword =
     (sql_like (like_param keyword) (sql_lower (row_title r)) \<or>
      sql_like (like_param keyword) (sql_lower (row_text_blob r)) \<or>
      sql_like (like_param keyword) (sql_lower (json_dumps_strs (row_tags r))) \<or>
      sql_like (like_param keyword) (sql_lower (json_dumps_strs (row_components r))))"

text \<open>\<^verbatim>\<open>LIMIT ?\<close>: a negative limit is no limit.\<close>

definition sql_limit :: "int \<Rightarrow> 'a list \<Rightarrow> 'a list" where
  "sql_limit n xs = (if n < 0 then xs else take (nat n) xs)"

record candidate =
  doc_id :: string
  title :: string
  priority :: "string option"
  tags :: "string list"
  components :: "string list"
  text_blob :: string
  metadata :: metadata
  vector :: "real list option"
  semantic_score :: "real option"

definition row_to_candidate :: "row \<Rightarrow> candidate" where
  "row_to_candidate r =
     \<lparr> doc_id = row_id r, title = row_title r, priority = row_priority r,
       tags = row_tags r, components = row_components r, text_blob = row_text_blob r,
       metadata = row_metadata r, vector = row_vector r, semantic_score = None \<rparr>"

text \<open>\<^verbatim>\<open>search_by_keywords\<close>: the rows for which some keyword's condition holds, ordered
  by priority then title (rows equal in both stay in table order), cut at the limit.\<close>

definition matching_rows :: "table \<Rightarrow> string list \<Rightarrow> row list" where
  "matching_rows tbl keywords = filter (\<lambda>r. list_ex (keyword_condition r) keywords) tbl"

definition search_by_keywords :: "table \<Rightarrow> string list \<Rightarrow> int \<Rightarrow> candidate list" where
  "search_by_keywords tbl keywords limit =
     (if keywords = [] then []
      else map row_to_candidate
             (sql_limit limit
                (sort_key (\<lambda>r. (row_priority r, row_title r)) (matching_rows tbl keywords))))"

section \<open>Hybrid retriever\<close>

record config =
  keyword_weight :: real
  semantic_weight :: real
  priority_weight :: real
  max_candidates :: int
  max_results :: int
  min_similarity_threshold :: real

definition default_config :: config where
  "default_config =
     \<lparr> keyword_weight = 0.4, semantic_weight = 0.4, priority_weight = 0.2,
       max_candidates = 200, max_results = 10, min_similarity_threshold = 0.1 \<rparr>"

text \<open>The embedding model maps a text to its vector, or raises.\<close>

type_synonym encoder = "string \<Rightarrow> error + real list"

record retriever =
  store :: table
  config :: config
  embedding_model :: "encoder option"

text \<open>\<^verbatim>\<open>__init__\<close>: a missing configuration is the default one; no model is attached.\<close>

definition init :: "table \<Rightarrow> config option \<Rightarrow> retriever" where
  "init st cfg =
     \<lparr> store = st, config = (case cfg of None \<Rightarrow> default_config | Some c \<Rightarrow> c),
       embedding_model = None \<rparr>"

subsection \<open>Keyword extractor\<close>

definition domain_terms :: "string list" where
  "domain_terms =
     [''onboarding'', ''positions'', ''graphql'', ''api'', ''ui'', ''auth'', ''authentication'',
      ''booking'', ''shift'', ''approval'', ''cancellation'', ''notification'', ''push'',
      ''token'', ''refresh'', ''login'', ''logout'', ''user'', ''profile'', ''settings'',
      ''payment'', ''billing'', ''subscription'', ''waitlist'', ''queue'', ''priority'']"

definition is_word_char :: "char \<Rightarrow> bool" where
  "is_word_char c \<longleftrightarrow> c \<in> set (lower_letters @ upper_letters @ ''0123456789_'')"

definition is_token_char :: "char \<Rightarrow> bool" where
  "is_token_char c \<longleftrightarrow> is_word_char c \<or> c = CHR ''-''"

text \<open>
  \<^verbatim>\<open>re.findall(r'\b[a-zA-Z0-9_-]+\b', s)\<close>. Every word character is in the class and
  the hyphen is not a word character, so a match begins at the first word character of a
  maximal run of class characters and, after backtracking to the last word boundary,
  ends at the run's last word character; what is left of the run is hyphens, where no
  match can end. Each run gives its text without leading and trailing hyphens, if any
  is left.
\<close>

definition strip_hyphens :: "string \<Rightarrow> string" where
  "strip_hyphens s =
     rev (dropWhile (\<lambda>c. c = CHR ''-'') (rev (dropWhile (\<lambda>c. c = CHR ''-'') s)))"

definition find_words :: "string \<Rightarrow> string list" where
  "find_words s = filter (\<lambda>w. w \<noteq> []) (map strip_hyphens (runs is_token_char s))"

text \<open>\<^verbatim>\<open>list(dict.fromkeys(xs))\<close>: the first occurrence of each element, in order.\<close>

definition dedup_first :: "'a list \<Rightarrow> 'a list" where
  "dedup_first xs = rev (remdups (rev xs))"

text \<open>\<^verbatim>\<open>_extract_keywords\<close>; the stop word set of scikit-learn is a parameter.\<close>

definition extract_keywords :: "string set \<Rightarrow> string \<Rightarrow> string list" where
  "extract_keywords stop_words query_text =
     (let query_lower = py_lower query_text;
          domain_keywords = filter (\<lambda>term. py_in term query_lower) domain_terms;
          words = find_words query_lower;
          general_keywords = filter (\<lambda>word. 2 < length word \<and> word \<notin> stop_words) words
      in dedup_first (domain_keywords @ general_keywords))"

subsection \<open>Semantic reranker\<close>

text \<open>\<^verbatim>\<open>_cosine_similarity\<close>: \<^verbatim>\<open>np.dot\<close> raises on vectors of different length and the
  handler returns 0.\<close>

definition dot_product :: "real list \<Rightarrow> real list \<Rightarrow> real" where
  "dot_product v1 v2 = sum_list (map (\<lambda>(a, b). a * b) (zip v1 v2))"

definition norm_vec :: "real list \<Rightarrow> real" where
  "norm_vec v = sqrt (sum_list (map (\<lambda>a. a * a) v))"

definition cosine_similarity :: "real list \<Rightarrow> real list \<Rightarrow> real" where
  "cosine_similarity vec1 vec2 =
     (if length vec1 \<noteq> length vec2 then 0
      else if norm_vec vec1 = 0 \<or> norm_vec vec2 = 0 then 0
      else dot_product vec1 vec2 / (norm_vec vec1 * norm_vec vec2))"

text \<open>\<^verbatim>\<open>_get_embedding\<close> with the model attached: a failure of \<^verbatim>\<open>encode\<close> is raised
  again as a \<^verbatim>\<open>RuntimeError\<close>.\<close>

definition get_embedding :: "encoder \<Rightarrow> string \<Rightarrow> error + real list" where
  "get_embedding enc text = (case enc text of Inl e \<Rightarrow> Inl (RuntimeError e) | Inr v \<Rightarrow> Inr v)"

text \<open>The loop of \<^verbatim>\<open>_semantic_rerank\<close>: a candidate whose vector is \<open>None\<close> or empty
  raises \<^verbatim>\<open>ValueError\<close>.\<close>

fun rerank_loop :: "real list \<Rightarrow> candidate list \<Rightarrow> error + candidate list" where
  "rerank_loop query_embedding [] = Inr []"
| "rerank_loop query_embedding (c # cs) =
     (case vector c of
        None \<Rightarrow> Inl (ValueError (doc_id c))
      | Some v \<Rightarrow>
          if v = [] then Inl (ValueError (doc_id c))
          else (case rerank_loop query_embedding cs of
                  Inl e \<Rightarrow> Inl e
                | Inr cs' \<Rightarrow>
                    Inr (c\<lparr> semantic_score := Some (cosine_similarity query_embedding v) \<rparr> # cs')))"

text \<open>\<^verbatim>\<open>_semantic_rerank\<close>: every exception of the body leaves as a \<^verbatim>\<open>RuntimeError\<close>.\<close>

definition semantic_rerank :: "encoder \<Rightarrow> string \<Rightarrow> candidate list \<Rightarrow> error + candidate list" where
  "semantic_rerank enc query_text candidates =
     (case get_embedding enc query_text of
        Inl e \<Rightarrow> Inl (RuntimeError e)
      | Inr query_embedding \<Rightarrow>
          (case rerank_loop query_embedding candidates of
             Inl e \<Rightarrow> Inl (RuntimeError e)
           | Inr cs \<Rightarrow> Inr cs))"

subsection \<open>Weighted ranker\<close>

record scored_candidate =
  cand :: candidate
  score :: real
  keyword_score :: real
  priority_score :: real

text \<open>\<^verbatim>\<open>_calculate_keyword_score\<close>.\<close>

definition calculate_keyword_score :: "string \<Rightarrow> candidate \<Rightarrow> real" where
  "calculate_keyword_score query_lower c =
     (let words = py_split query_lower;
          title_part = (if list_ex (\<lambda>word. py_in word (py_lower (title c))) words then 0.5 else 0);
          matches = length (filter (\<lambda>word. py_in word (py_lower (text_blob c))) words);
          blob_part = min (real matches * 0.1) 0.3;
          all_tags = py_lower (py_join '' '' (tags c @ components c));
          tag_part = (if list_ex (\<lambda>word. py_in word all_tags) words then 0.2 else 0)
      in min (title_part + blob_part + tag_part) 1.0)"

text \<open>The weighted sum of \<^verbatim>\<open>_apply_ranking\<close>.\<close>

definition final_score :: "config \<Rightarrow> real \<Rightarrow> real \<Rightarrow> real \<Rightarrow> real" where
  "final_score cfg kw_score sem_score prio_score =
     keyword_weight cfg * kw_score + semantic_weight cfg * sem_score +
     priority_weight cfg * prio_score"

text \<open>One round of the scoring loop; the candidate's semantic score is 0 when the key
  was never set.\<close>

definition score_candidate :: "config \<Rightarrow> string \<Rightarrow> candidate \<Rightarrow> error + scored_candidate" where
  "score_candidate cfg query_lower c =
     (let kw_score = calculate_keyword_score query_lower c;
          sem_score = (case semantic_score c of None \<Rightarrow> 0 | Some v \<Rightarrow> v)
      in case calculate_priority_score (priority c) of
           Inl e \<Rightarrow> Inl e
         | Inr prio_score \<Rightarrow>
             Inr \<lparr> cand = c, score = final_score cfg kw_score sem_score prio_score,
                   keyword_score = kw_score, priority_score = prio_score \<rparr>)"

fun score_candidates :: "config \<Rightarrow> string \<Rightarrow> candidate list \<Rightarrow> error + scored_candidate list" where
  "score_candidates cfg query_lower [] = Inr []"
| "score_candidates cfg query_lower (c # cs) =
     (case score_candidate cfg query_lower c of
        Inl e \<Rightarrow> Inl e
      | Inr s \<Rightarrow>
          (case score_candidates cfg query_lower cs of
             Inl e \<Rightarrow> Inl e
           | Inr ss \<Rightarrow> Inr (s # ss)))"

text \<open>\<^verbatim>\<open>sorted(xs, key=..., reverse=True)\<close>: descending by key, elements of equal key in
  their original order.\<close>

definition sorted_reverse :: "('a \<Rightarrow> real) \<Rightarrow> 'a list \<Rightarrow> 'a list" where
  "sorted_reverse key xs = sort_key (\<lambda>x. - key x) xs"

definition apply_ranking :: "config \<Rightarrow> string \<Rightarrow> candidate list \<Rightarrow> error + scored_candidate list" where
  "apply_ranking cfg query_text candidates =
     (case score_candidates cfg (py_lower query_text) candidates of
        Inl e \<Rightarrow> Inl e
      | Inr scored \<Rightarrow>
          Inr (filter (\<lambda>c. min_similarity_threshold cfg \<le> score c)
                 (sorted_reverse score scored)))"

subsection \<open>Query\<close>

text \<open>
  \<^verbatim>\<open>query\<close> returns the ranked list or the exception, together with the texts it passed
  to the embedding model's \<^verbatim>\<open>encode\<close>, in order.
\<close>

definition query ::
  "string set \<Rightarrow> retriever \<Rightarrow> string \<Rightarrow> int \<Rightarrow> (error + scored_candidate list) \<times> string list" where
  "query stop_words r query_text top_k =
     (let keywords = extract_keywords stop_words query_text;
          candidates = search_by_keywords (store r) keywords (max_candidates (config r))
      in if candidates = [] then (Inr [], [])
         else (case embedding_model r of
                 None \<Rightarrow>
                   (case apply_ranking (config r) query_text candidates of
                      Inl e \<Rightarrow> (Inl e, [])
                    | Inr ranked \<Rightarrow> (Inr (py_take top_k ranked), []))
               | Some enc \<Rightarrow>
                   (case semantic_rerank enc query_text candidates of
                      Inl e \<Rightarrow> (Inl e, [query_text])
                    | Inr reranked \<Rightarrow>
                        (case apply_ranking (config r) query_text reranked of
                           Inl e \<Rightarrow> (Inl e, [query_text])
                         | Inr ranked \<Rightarrow> (Inr (py_take top_k ranked), [query_text])))))"

subsection \<open>Loading from the cache\<close>

text \<open>
  What \<^verbatim>\<open>load_from_cache\<close> meets outside the program: what \<^verbatim>\<open>db_path.exists()\<close> gives
  (the call can raise \<^verbatim>\<open>OSError\<close>), what opening the store gives, the dumped
  configuration (\<open>None\<close> when there is no file, an error when reading it fails), what
  constructing the embedding model gives, and what printing the handler's warning gives
  (\<^verbatim>\<open>print\<close> can raise on an output stream that cannot encode the message).
\<close>

record cache_env =
  db_exists :: "error + bool"
  open_store :: "error + table"
  config_file :: "(error + config) option"
  import_model :: "error + encoder"
  print_warning :: "error + unit"

text \<open>\<^verbatim>\<open>_load_embedding_model\<close>: nothing to do when a model is attached; otherwise the
  model is constructed, and a failure to do so is raised.\<close>

definition load_embedding_model :: "error + encoder \<Rightarrow> retriever \<Rightarrow> error + retriever" where
  "load_embedding_model imp r =
     (case embedding_model r of
        Some m \<Rightarrow> Inr r
      | None \<Rightarrow> (case imp of Inl e \<Rightarrow> Inl e | Inr m \<Rightarrow> Inr (r\<lparr> embedding_model := Some m \<rparr>)))"

text \<open>The body of the \<^verbatim>\<open>try\<close> block of \<^verbatim>\<open>load_from_cache\<close>.\<close>

definition load_from_cache_try :: "cache_env \<Rightarrow> config option \<Rightarrow> error + retriever" where
  "load_from_cache_try env cfg =
     (case open_store env of
        Inl e \<Rightarrow> Inl e
      | Inr st \<Rightarrow>
          (case (case config_file env of
                   None \<Rightarrow> Inr (init st cfg)
                 | Some (Inl e) \<Rightarrow> Inl e
                 | Some (Inr config_data) \<Rightarrow> Inr ((init st cfg)\<lparr> config := config_data \<rparr>)) of
             Inl e \<Rightarrow> Inl e
           | Inr r \<Rightarrow> load_embedding_model (import_model env) r))"

text \<open>
  \<^verbatim>\<open>load_from_cache\<close>: \<open>Inr None\<close> is the return value \<^verbatim>\<open>None\<close>, \<open>Inl\<close> an exception
  that reaches the caller. The existence check stands before the \<^verbatim>\<open>try\<close> block, so
  what it raises reaches the caller; the handler catches what the body raises, prints a
  warning and returns \<^verbatim>\<open>None\<close>, and what the print raises reaches the caller.
\<close>

definition load_from_cache :: "cache_env \<Rightarrow> config option \<Rightarrow> error + retriever option" where
  "load_from_cache env cfg =
     (case db_exists env of
        Inl e \<Rightarrow> Inl e
      | Inr found \<Rightarrow>
          if \<not> found then Inr None
          else (case load_from_cache_try env cfg of
                  Inl e \<Rightarrow> (case print_warning env of Inl e' \<Rightarrow> Inl e' | Inr u \<Rightarrow> Inr None)
                | Inr r \<Rightarrow> Inr (Some r)))"

section \<open>Example data\<close>

definition critical_case :: test_case where
  "critical_case =
     \<lparr> tc_id = Some ''TC-1'', tc_title = Some ''Checkout'', tc_description = None, tc_steps = [],
       tc_expected_result = None, tc_priority = Some ''Critical'', tc_tags = [],
       tc_preconditions = [], tc_source_file = None, tc_created_by = None \<rparr>"

definition no_metadata :: metadata where
  "no_metadata = \<lparr> preconditions = [], original_file = [], created_by = ''system'' \<rparr>"

definition login_row :: row where
  "login_row =
     \<lparr> row_id = ''A'', row_title = ''Login flow'', row_priority = Some ''P1'', row_tags = [],
       row_components = [], row_text_blob = ''user logs in'', row_vector = Some [1, 0],
       row_metadata = no_metadata, row_created_at = 0, row_updated_at = 0 \<rparr>"

definition logout_row :: row where
  "logout_row =
     \<lparr> row_id = ''B'', row_title = ''Logout'', row_priority = Some ''P3'', row_tags = [],
       row_components = [], row_text_blob = ''user logs out'', row_vector = None,
       row_metadata = no_metadata, row_created_at = 0, row_updated_at = 0 \<rparr>"

definition keyword_only :: retriever where
  "keyword_only = \<lparr> store = [login_row, logout_row], config = default_config, embedding_model = None \<rparr>"

definition failing_encoder :: encoder where
  "failing_encoder text = Inl (OtherError ''encode'')"

definition unit_encoder :: encoder where
  "unit_encoder text = Inr [1, 0]"

definition with_model :: retriever where
  "with_model = \<lparr> store = [login_row, logout_row], config = default_config,
                  embedding_model = Some unit_encoder \<rparr>"

definition with_failing_model :: retriever where
  "with_failing_model = \<lparr> store = [login_row, logout_row], config = default_config,
                          embedding_model = Some failing_encoder \<rparr>"

definition strict_config :: config where
  "strict_config = default_config \<lparr> min_similarity_threshold := 0.2 \<rparr>"

definition strict_retriever :: retriever where
  "strict_retriever = \<lparr> store = [login_row, logout_row], config = strict_config, embedding_model = None \<rparr>"

definition login_scored :: scored_candidate where
  "login_scored =
     \<lparr> cand = row_to_candidate login_row, score = 0.24, keyword_score = 0.1, priority_score = 1 \<rparr>"

definition keyword_config :: config where
  "keyword_config =
     \<lparr> keyword_weight = 1, semantic_weight = 0, priority_weight = 0,
       max_candidates = 200, max_results = 10, min_similarity_threshold = 0 \<rparr>"

definition tied_logout :: scored_candidate where
  "tied_logout =
     \<lparr> cand = row_to_candidate logout_row, score = 0.1, keyword_score = 0.1, priority_score = 0.6 \<rparr>"

definition tied_login :: scored_candidate where
  "tied_login =
     \<lparr> cand = row_to_candidate login_row, score = 0.1, keyword_score = 0.1, priority_score = 1 \<rparr>"

definition checkout_v1 :: test_case where
  "checkout_v1 =
     \<lparr> tc_id = Some ''TC-7'', tc_title = Some ''Checkout'', tc_description = Some ''pay by card'',
       tc_steps = [StepStr ''open cart''], tc_expected_result = Some ''order placed'',
       tc_priority = Some ''P1'', tc_tags = [''payment''], tc_preconditions = [],
       tc_source_file = None, tc_created_by = None \<rparr>"

definition checkout_v2 :: test_case where
  "checkout_v2 =
     \<lparr> tc_id = Some ''TC-7'', tc_title = Some ''Checkout with voucher'', tc_description = None,
       tc_steps = [StepObj (Some ''apply voucher'') (Some ''total drops'')],
       tc_expected_result = None, tc_priority = Some ''low'', tc_tags = [''api-billing''],
       tc_preconditions = [''UI is up''], tc_source_file = Some ''tc7.json'',
       tc_created_by = Some ''qa'' \<rparr>"

definition checkout_row_v1 :: row where
  "checkout_row_v1 =
     \<lparr> row_id = ''TC-7'', row_title = ''Checkout'', row_priority = Some ''P1'',
       row_tags = [''payment''], row_components = [],
       row_text_blob = ''pay by card open cart order placed'', row_vector = Some [1, 2],
       row_metadata = no_metadata, row_created_at = 5, row_updated_at = 5 \<rparr>"

definition checkout_row_v2 :: row where
  "checkout_row_v2 =
     \<lparr> row_id = ''TC-7'', row_title = ''Checkout with voucher'', row_priority = Some ''P3'',
       row_tags = [''api-billing''], row_components = [''api-billing'', ''UI is up''],
       row_text_blob = ''apply voucher total drops'', row_vector = None,
       row_metadata = \<lparr> preconditions = [''UI is up''], original_file = ''tc7.json'',
                        created_by = ''qa'' \<rparr>,
       row_created_at = 9, row_updated_at = 9 \<rparr>"

definition sign_in_row :: row where
  "sign_in_row =
     \<lparr> row_id = ''S'', row_title = ''Sign in page'', row_priority = Some ''P2'',
       row_tags = [''smoke''], row_components = [], row_text_blob = ''opens the form'',
       row_vector = None, row_metadata = no_metadata, row_created_at = 0, row_updated_at = 0 \<rparr>"

definition env_model_missing :: cache_env where
  "env_model_missing =
     \<lparr> db_exists = Inr True, open_store = Inr [login_row], config_file = None,
       import_model = Inl ImportError, print_warning = Inr () \<rparr>"

definition env_no_file :: cache_env where
  "env_no_file =
     \<lparr> db_exists = Inr False, open_store = Inr [login_row], config_file = None,
       import_model = Inr unit_encoder, print_warning = Inr () \<rparr>"

definition env_ready :: cache_env where
  "env_ready =
     \<lparr> db_exists = Inr True, open_store = Inr [login_row], config_file = None,
       import_model = Inr unit_encoder, print_warning = Inr () \<rparr>"

definition env_ready_dumped :: cache_env where
  "env_ready_dumped =
     \<lparr> db_exists = Inr True, open_store = Inr [login_row],
       config_file = Some (Inr keyword_config),
       import_model = Inr unit_encoder, print_warning = Inr () \<rparr>"

section \<open>Properties of the priority score\<close>

lemma runs_acc_skip: "\<forall>c\<in>set ws. \<not> P c \<Longrightarrow> runs_acc P [] (ws @ s) = runs_acc P [] s"
  by (induction ws) auto

lemma runs_acc_take: "\<forall>c\<in>set t. P c \<Longrightarrow> runs_acc P acc (t @ s) = runs_acc P (rev t @ acc) s"
  by (induction t arbitrary: acc) auto

lemma runs_acc_close:
  "acc \<noteq> [] \<Longrightarrow> s = [] \<or> \<not> P (hd s) \<Longrightarrow> \<exists>ts. runs_acc P acc s = rev acc # ts"
  by (cases s) auto

lemma py_split_first_token:
  assumes "\<forall>c\<in>set ws. is_space c" "t \<noteq> []" "\<forall>c\<in>set t. \<not> is_space c"
    "rest = [] \<or> is_space (hd rest)"
  shows "\<exists>ts. py_split (ws @ t @ rest) = t # ts"
proof -
  have "runs_acc (\<lambda>c. \<not> is_space c) [] (ws @ t @ rest) = runs_acc (\<lambda>c. \<not> is_space c) (rev t) rest"
    using assms(1,3) by (simp add: runs_acc_skip runs_acc_take)
  moreover have "\<exists>ts. runs_acc (\<lambda>c. \<not> is_space c) (rev t) rest = rev (rev t) # ts"
    by (rule runs_acc_close) (use assms(2,4) in auto)
  ultimately show ?thesis by (simp add: py_split_def runs_def)
qed

lemma lookup_priority_scores:
  "(case map_of priority_scores pre of None \<Rightarrow> 0.6 | Some v \<Rightarrow> v) =
     (if pre = ''P1'' then 1.0 else if pre = ''P2'' then 0.8
      else if pre = ''P3'' then 0.6 else if pre = ''P4'' then 0.4 else 0.6)"
  by (simp add: priority_scores_def)

lemma runs_acc_nonempty: "acc \<noteq> [] \<Longrightarrow> runs_acc P acc s \<noteq> []"
  by (induction s arbitrary: acc) auto

lemma extract_priority_cases:
  "extract_priority tgs \<in> {''P0'', ''P1'', ''P2'', ''P3''}"
  by (induction tgs) auto

lemma extract_priority_from_string_P: "startswith_P (extract_priority_from_string s)"
  by (auto simp: extract_priority_from_string_def startswith_P_def Let_def split: option.splits)

lemma stored_priority_P: "startswith_P (stored_priority tc)"
proof -
  have "startswith_P (extract_priority (tc_tags tc))"
    using extract_priority_cases [of "tc_tags tc"] by (auto simp: startswith_P_def)
  then show ?thesis
    by (auto simp: stored_priority_def Let_def extract_priority_from_string_P)
qed

lemma startswith_P_scored:
  assumes "startswith_P p"
  shows "\<exists>v. calculate_priority_score (Some p) = Inr v"
proof -
  obtain cs where p: "p = CHR ''P'' # cs"
    using assms by (auto simp: startswith_P_def split: list.splits)
  have ns: "\<not> is_space (CHR ''P'')" by (simp add: is_space_def)
  have "py_split p \<noteq> []"
    unfolding p py_split_def runs_def using ns by (simp add: runs_acc_nonempty)
  then show ?thesis
    by (auto simp: calculate_priority_score_def priority_prefix_def p split: list.splits)
qed

lemma stored_priority_scored: "\<exists>v. calculate_priority_score (Some (stored_priority tc)) = Inr v"
  by (rule startswith_P_scored) (rule stored_priority_P)

text \<open>
  C4. The priority score is 1.0, 0.8, 0.6 and 0.4 for P1, P2, P3 and P4, decided by the
  first whitespace-separated token of the priority string read case-insensitively, and
  0.6 for any other first token and for a missing or empty priority; every priority
  that \<^verbatim>\<open>store_test_case\<close> writes has a first token, so it gets a score; the four
  scores are strictly decreasing from P1 to P4.
\<close>

theorem calculate_priority_score_table:
  assumes "\<forall>c\<in>set ws. is_space c" "t \<noteq> []" "\<forall>c\<in>set t. \<not> is_space c"
    "rest = [] \<or> is_space (hd rest)"
  shows "calculate_priority_score (Some (ws @ t @ rest)) =
           Inr (if py_upper t = ''P1'' then 1.0 else if py_upper t = ''P2'' then 0.8
                else if py_upper t = ''P3'' then 0.6 else if py_upper t = ''P4'' then 0.4
                else 0.6) \<and>
         calculate_priority_score None = Inr 0.6 \<and>
         calculate_priority_score (Some []) = Inr 0.6 \<and>
         (\<exists>v. calculate_priority_score (Some (stored_priority tc)) = Inr v) \<and>
         (\<exists>s1 s2 s3 s4.
            calculate_priority_score (Some ''P1'') = Inr s1 \<and>
            calculate_priority_score (Some ''P2'') = Inr s2 \<and>
            calculate_priority_score (Some ''P3'') = Inr s3 \<and>
            calculate_priority_score (Some ''P4'') = Inr s4 \<and>
            s1 > s2 \<and> s2 > s3 \<and> s3 > s4)"
proof -
  obtain ts where split: "py_split (ws @ t @ rest) = t # ts"
    using py_split_first_token [OF assms] by blast
  have first: "calculate_priority_score (Some (ws @ t @ rest)) =
           Inr (if py_upper t = ''P1'' then 1.0 else if py_upper t = ''P2'' then 0.8
                else if py_upper t = ''P3'' then 0.6 else if py_upper t = ''P4'' then 0.4
                else 0.6)"
    using assms(2) split
    by (simp add: calculate_priority_score_def priority_prefix_def lookup_priority_scores)
  have none: "calculate_priority_score None = Inr 0.6"
    by (simp add: calculate_priority_score_def priority_prefix_def lookup_priority_scores)
  have empty: "calculate_priority_score (Some []) = Inr 0.6"
    by (simp add: calculate_priority_score_def priority_prefix_def lookup_priority_scores)
  have p1: "calculate_priority_score (Some ''P1'') = Inr 1.0" by code_simp
  have p2: "calculate_priority_score (Some ''P2'') = Inr 0.8" by code_simp
  have p3: "calculate_priority_score (Some ''P3'') = Inr 0.6" by code_simp
  have p4: "calculate_priority_score (Some ''P4'') = Inr 0.4" by code_simp
  have ord: "\<exists>s1 s2 s3 s4.
            calculate_priority_score (Some ''P1'') = Inr s1 \<and>
            calculate_priority_score (Some ''P2'') = Inr s2 \<and>
            calculate_priority_score (Some ''P3'') = Inr s3 \<and>
            calculate_priority_score (Some ''P4'') = Inr s4 \<and>
            s1 > s2 \<and> s2 > s3 \<and> s3 > s4"
  proof (intro exI conjI)
    show "calculate_priority_score (Some ''P1'') = Inr 1.0" by (rule p1)
    show "calculate_priority_score (Some ''P2'') = Inr 0.8" by (rule p2)
    show "calculate_priority_score (Some ''P3'') = Inr 0.6" by (rule p3)
    show "calculate_priority_score (Some ''P4'') = Inr 0.4" by (rule p4)
  qed simp_all
  from first none empty stored_priority_scored [of tc] ord show ?thesis by blast
qed

theorem calculate_priority_score_table_witness:
  "calculate_priority_score (Some ''p2 - High'') = Inr 0.8"
proof -
  have a: "\<forall>c\<in>set ''''. is_space c" by simp
  have b: "''p2'' \<noteq> []" by simp
  have c: "\<forall>c\<in>set ''p2''. \<not> is_space c" by (simp add: is_space_def)
  have d: "'' - High'' = [] \<or> is_space (hd '' - High'')" by (simp add: is_space_def)
  have u: "py_upper ''p2'' = ''P2''" by code_simp
  show ?thesis
    using calculate_priority_score_table [OF a b c d] unfolding u by simp
qed

lemma score_P0: "calculate_priority_score (Some ''P0'') = Inr 0.6"
  by code_simp

lemma score_P3: "calculate_priority_score (Some ''P3'') = Inr 0.6"
  by code_simp

lemma critical_stored: "stored_priority critical_case = ''P0''"
  by code_simp

text \<open>
  C9. A stored priority \<^verbatim>\<open>P0\<close>, which the store's normalisation produces from
  \<^verbatim>\<open>"Critical"\<close>, from \<^verbatim>\<open>"urgent"\<close> and from a tag \<^verbatim>\<open>p0\<close>, gets the priority score
  0.6, the score of \<^verbatim>\<open>P3\<close> and of an unrecognised priority: two candidates that differ
  only in having priority P0 or P3 get the same fused score.
\<close>

theorem p0_scored_as_p3:
  "stored_priority critical_case = ''P0'' \<and>
   extract_priority_from_string ''urgent'' = ''P0'' \<and>
   extract_priority [''smoke'', ''p0''] = ''P0'' \<and>
   calculate_priority_score (Some ''P0'') = Inr 0.6 \<and>
   calculate_priority_score (Some ''P3'') = Inr 0.6 \<and>
   calculate_priority_score (Some ''unknown'') = Inr 0.6 \<and>
   (\<exists>s0 s3. score_candidate cfg query_lower (c\<lparr> priority := Some ''P0'' \<rparr>) = Inr s0 \<and>
            score_candidate cfg query_lower (c\<lparr> priority := Some ''P3'' \<rparr>) = Inr s3 \<and>
            priority_score s0 = 0.6 \<and> priority_score s3 = 0.6 \<and> score s0 = score s3)"
proof -
  have a: "extract_priority_from_string ''urgent'' = ''P0''" by code_simp
  have b: "extract_priority [''smoke'', ''p0''] = ''P0''" by code_simp
  have u: "calculate_priority_score (Some ''unknown'') = Inr 0.6" by code_simp
  have kw: "calculate_keyword_score query_lower (c\<lparr> priority := Some ''P0'' \<rparr>) =
            calculate_keyword_score query_lower (c\<lparr> priority := Some ''P3'' \<rparr>)"
    by (simp add: calculate_keyword_score_def)
  have f: "\<exists>s0 s3. score_candidate cfg query_lower (c\<lparr> priority := Some ''P0'' \<rparr>) = Inr s0 \<and>
            score_candidate cfg query_lower (c\<lparr> priority := Some ''P3'' \<rparr>) = Inr s3 \<and>
            priority_score s0 = 0.6 \<and> priority_score s3 = 0.6 \<and> score s0 = score s3"
    by (simp add: score_candidate_def score_P0 score_P3 kw Let_def)
  from critical_stored a b score_P0 score_P3 u f show ?thesis by blast
qed

section \<open>Properties of score fusion\<close>

lemma score_candidate_fused:
  "score_candidate cfg query_lower c = Inr s \<Longrightarrow>
     cand s = c \<and>
     score s = final_score cfg (keyword_score s)
                 (case semantic_score c of None \<Rightarrow> 0 | Some v \<Rightarrow> v) (priority_score s)"
  by (auto simp: score_candidate_def Let_def split: sum.splits)

text \<open>
  C5. With non-negative weights the fused score never decreases when one of the keyword,
  semantic and priority scores increases and the other two stay fixed.
\<close>

theorem final_score_monotone:
  assumes "0 \<le> keyword_weight cfg" "0 \<le> semantic_weight cfg" "0 \<le> priority_weight cfg"
  shows "(k \<le> k' \<longrightarrow> final_score cfg k s p \<le> final_score cfg k' s p) \<and>
         (s \<le> s' \<longrightarrow> final_score cfg k s p \<le> final_score cfg k s' p) \<and>
         (p \<le> p' \<longrightarrow> final_score cfg k s p \<le> final_score cfg k s p')"
  using assms by (simp add: final_score_def mult_left_mono)

theorem final_score_monotone_witness:
  "final_score default_config 0.5 0 0.8 \<le> final_score default_config 0.8 0 0.8 \<and>
   final_score default_config 0.5 (-1) 0.8 \<le> final_score default_config 0.5 0.25 0.8 \<and>
   final_score default_config 0.5 0 0.6 \<le> final_score default_config 0.5 0 1"
proof -
  have w: "0 \<le> keyword_weight default_config" "0 \<le> semantic_weight default_config"
    "0 \<le> priority_weight default_config"
    by (simp_all add: default_config_def)
  show ?thesis
    using final_score_monotone [OF w, where k = "0.5" and k' = "0.8" and s = 0 and p = "0.8"]
          final_score_monotone [OF w, where k = "0.5" and s = "-1" and s' = "0.25" and p = "0.8"]
          final_score_monotone [OF w, where k = "0.5" and s = 0 and p = "0.6" and p' = 1]
    by simp
qed

section \<open>Properties of ranking\<close>

lemma score_candidates_fused:
  "score_candidates cfg ql cs = Inr ss \<Longrightarrow>
     map cand ss = cs \<and>
     (\<forall>s\<in>set ss. score s = final_score cfg (keyword_score s)
                     (case semantic_score (cand s) of None \<Rightarrow> 0 | Some v \<Rightarrow> v) (priority_score s))"
proof (induction cs arbitrary: ss)
  case Nil
  then show ?case by simp
next
  case (Cons c cs)
  from Cons.prems obtain s ss' where s: "score_candidate cfg ql c = Inr s"
    and ss': "score_candidates cfg ql cs = Inr ss'" and eq: "ss = s # ss'"
    by (auto split: sum.splits)
  from score_candidate_fused [OF s] Cons.IH [OF ss'] eq show ?case by auto
qed

lemma set_py_take: "set (py_take k xs) \<subseteq> set xs"
  by (auto simp: py_take_def dest: in_set_takeD)

lemma query_result_ranked:
  assumes "fst (query sw r q k) = Inr res"
  shows "res = [] \<or> (\<exists>cs ranked. apply_ranking (config r) q cs = Inr ranked \<and> res = py_take k ranked)"
proof -
  let ?cs = "search_by_keywords (store r) (extract_keywords sw q) (max_candidates (config r))"
  show ?thesis
  proof (cases "?cs = []")
    case True
    with assms show ?thesis by (simp add: query_def Let_def)
  next
    case ne: False
    show ?thesis
    proof (cases "embedding_model r")
      case None
      with ne assms show ?thesis
        by (cases "apply_ranking (config r) q ?cs") (auto simp: query_def Let_def)
    next
      case (Some enc)
      show ?thesis
      proof (cases "semantic_rerank enc q ?cs")
        case (Inl e)
        with ne Some assms show ?thesis by (simp add: query_def Let_def)
      next
        case (Inr reranked)
        with ne Some assms show ?thesis
          by (cases "apply_ranking (config r) q reranked") (auto simp: query_def Let_def)
      qed
    qed
  qed
qed

lemma apply_ranking_set:
  assumes "apply_ranking cfg q cs = Inr res" "c \<in> set res"
  shows "min_similarity_threshold cfg \<le> score c \<and>
         score c = final_score cfg (keyword_score c)
                     (case semantic_score (cand c) of None \<Rightarrow> 0 | Some v \<Rightarrow> v) (priority_score c)"
proof -
  from assms(1) obtain scored where sc: "score_candidates cfg (py_lower q) cs = Inr scored"
    and res: "res = filter (\<lambda>c. min_similarity_threshold cfg \<le> score c) (sorted_reverse score scored)"
    by (auto simp: apply_ranking_def split: sum.splits)
  from assms(2) res have "c \<in> set scored" "min_similarity_threshold cfg \<le> score c"
    by (auto simp: sorted_reverse_def)
  with score_candidates_fused [OF sc] show ?thesis by blast
qed

text \<open>
  C3. Every element of a list that \<^verbatim>\<open>query\<close> returns has a score that is the fused score
  of its three signals and is at least the configuration's \<^verbatim>\<open>min_similarity_threshold\<close>;
  a candidate scoring below the threshold is not in the result.
\<close>

theorem query_threshold:
  assumes "fst (query sw r q k) = Inr res" "c \<in> set res"
  shows "min_similarity_threshold (config r) \<le> score c \<and>
         score c = final_score (config r) (keyword_score c)
                     (case semantic_score (cand c) of None \<Rightarrow> 0 | Some v \<Rightarrow> v) (priority_score c)"
proof -
  from assms(2) have "res \<noteq> []" by auto
  with query_result_ranked [OF assms(1)]
  obtain cs ranked where ar: "apply_ranking (config r) q cs = Inr ranked"
    and res: "res = py_take k ranked"
    by blast
  from assms(2) set_py_take [of k ranked] have "c \<in> set ranked"
    unfolding res by blast
  from apply_ranking_set [OF ar this] show ?thesis .
qed


lemma user_keywords: "extract_keywords {} ''user'' = [''user'']"
  by code_simp

lemma user_candidates:
  "search_by_keywords [login_row, logout_row] [''user''] 200 =
     [row_to_candidate login_row, row_to_candidate logout_row]"
  by code_simp

lemma strict_ranking:
  "apply_ranking strict_config ''user'' [row_to_candidate login_row, row_to_candidate logout_row] =
     Inr [login_scored]"
  by code_simp

lemma strict_query: "fst (query {} strict_retriever ''user'' 10) = Inr [login_scored]"
proof -
  have c: "search_by_keywords (store strict_retriever) (extract_keywords {} ''user'')
             (max_candidates (config strict_retriever)) =
           [row_to_candidate login_row, row_to_candidate logout_row]"
    by (simp add: strict_retriever_def strict_config_def default_config_def user_keywords
          user_candidates)
  have a: "apply_ranking (config strict_retriever) ''user''
             [row_to_candidate login_row, row_to_candidate logout_row] = Inr [login_scored]"
    by (simp add: strict_retriever_def strict_ranking)
  have e: "embedding_model strict_retriever = None"
    by (simp add: strict_retriever_def)
  show ?thesis
    by (simp add: query_def c a e py_take_def)
qed

theorem query_threshold_witness:
  "fst (query {} strict_retriever ''user'' 10) = Inr [login_scored] \<and>
   min_similarity_threshold (config strict_retriever) \<le> score login_scored \<and>
   score login_scored = final_score (config strict_retriever) (keyword_score login_scored) 0
                          (priority_score login_scored)"
proof -
  have m: "login_scored \<in> set [login_scored]" by simp
  have s: "semantic_score (cand login_scored) = None"
    by (simp add: login_scored_def row_to_candidate_def)
  from query_threshold [OF strict_query m] strict_query show ?thesis
    by (simp add: s)
qed

text \<open>
  C6. The final ranking is in descending order of fused score, and for every score value
  the candidates having that score appear in the order in which the candidate list had
  them: the sort is stable and uses no second key.
\<close>

theorem apply_ranking_stable:
  assumes "apply_ranking cfg q cs = Inr res"
  shows "\<exists>scored. score_candidates cfg (py_lower q) cs = Inr scored \<and> map cand scored = cs \<and>
           sorted_wrt (\<lambda>a b. score b \<le> score a) res \<and>
           (\<forall>v. filter (\<lambda>c. score c = v) res =
                filter (\<lambda>c. score c = v)
                  (filter (\<lambda>c. min_similarity_threshold cfg \<le> score c) scored))"
proof -
  from assms obtain scored where sc: "score_candidates cfg (py_lower q) cs = Inr scored"
    and res: "res = filter (\<lambda>c. min_similarity_threshold cfg \<le> score c) (sorted_reverse score scored)"
    by (auto simp: apply_ranking_def split: sum.splits)
  have "sorted (map (\<lambda>x. - score x) (sorted_reverse score scored))"
    by (simp add: sorted_reverse_def)
  then have "sorted_wrt (\<lambda>a b. score b \<le> score a) (sorted_reverse score scored)"
    by (simp add: sorted_map)
  then have srt: "sorted_wrt (\<lambda>a b. score b \<le> score a) res"
    unfolding res by (rule sorted_wrt_filter)
  have stable: "filter (\<lambda>c. score c = v) res =
                filter (\<lambda>c. score c = v)
                  (filter (\<lambda>c. min_similarity_threshold cfg \<le> score c) scored)" for v
  proof -
    have "filter (\<lambda>c. - score c = - v) (sorted_reverse score scored) =
          filter (\<lambda>c. - score c = - v) scored"
      unfolding sorted_reverse_def by (rule sort_key_stable)
    then have "filter (\<lambda>c. score c = v) (sorted_reverse score scored) =
               filter (\<lambda>c. score c = v) scored"
      by simp
    then have "filter (\<lambda>c. min_similarity_threshold cfg \<le> score c)
                 (filter (\<lambda>c. score c = v) (sorted_reverse score scored)) =
               filter (\<lambda>c. min_similarity_threshold cfg \<le> score c)
                 (filter (\<lambda>c. score c = v) scored)"
      by simp
    then show ?thesis
      unfolding res by (simp add: conj_commute)
  qed
  from sc score_candidates_fused [OF sc] srt stable show ?thesis by blast
qed


lemma tied_ranking:
  "apply_ranking keyword_config ''user'' [row_to_candidate logout_row, row_to_candidate login_row] =
     Inr [tied_logout, tied_login]"
  by code_simp

theorem apply_ranking_stable_witness:
  "\<exists>scored. score_candidates keyword_config (py_lower ''user'')
              [row_to_candidate logout_row, row_to_candidate login_row] = Inr scored \<and>
     map cand scored = [row_to_candidate logout_row, row_to_candidate login_row] \<and>
     sorted_wrt (\<lambda>a b. score b \<le> score a) [tied_logout, tied_login] \<and>
     (\<forall>v. filter (\<lambda>c. score c = v) [tied_logout, tied_login] =
          filter (\<lambda>c. score c = v)
            (filter (\<lambda>c. min_similarity_threshold keyword_config \<le> score c) scored))"
  using apply_ranking_stable [OF tied_ranking] .

lemma rerank_loop_missing:
  assumes "c \<in> set cs" "vector c = None \<or> vector c = Some []"
  shows "\<exists>e. rerank_loop qe cs = Inl e"
  using assms by (induction cs) (auto split: option.splits sum.splits)

text \<open>
  C1. With an embedding model attached, a query whose keyword stage returns a candidate
  without a stored vector fails as a whole: it raises the \<^verbatim>\<open>RuntimeError\<close> of the
  rerank step and returns no list.
\<close>

theorem query_missing_vector_fails:
  assumes "embedding_model r = Some enc"
    and "c \<in> set (search_by_keywords (store r) (extract_keywords sw q) (max_candidates (config r)))"
    and "vector c = None \<or> vector c = Some []"
  shows "\<exists>e. query sw r q k = (Inl (RuntimeError e), [q])"
proof -
  let ?cs = "search_by_keywords (store r) (extract_keywords sw q) (max_candidates (config r))"
  from assms(2) have ne: "?cs \<noteq> []" by auto
  have "\<exists>e. semantic_rerank enc q ?cs = Inl (RuntimeError e)"
  proof (cases "get_embedding enc q")
    case (Inl e)
    then show ?thesis by (simp add: semantic_rerank_def)
  next
    case (Inr qe)
    from rerank_loop_missing [OF assms(2,3)] obtain e where "rerank_loop qe ?cs = Inl e" by blast
    with Inr show ?thesis by (simp add: semantic_rerank_def)
  qed
  then obtain e where "semantic_rerank enc q ?cs = Inl (RuntimeError e)" by blast
  with ne assms(1) show ?thesis by (simp add: query_def Let_def)
qed


theorem query_missing_vector_fails_witness:
  "\<exists>e. query {} with_model ''user'' 10 = (Inl (RuntimeError e), [''user''])"
proof -
  have m: "embedding_model with_model = Some unit_encoder"
    by (simp add: with_model_def)
  have c: "row_to_candidate logout_row \<in>
             set (search_by_keywords (store with_model) (extract_keywords {} ''user'')
                    (max_candidates (config with_model)))"
    by (simp add: with_model_def default_config_def user_keywords user_candidates)
  have v: "vector (row_to_candidate logout_row) = None \<or> vector (row_to_candidate logout_row) = Some []"
    by (simp add: row_to_candidate_def logout_row_def)
  from query_missing_vector_fails [OF m c v] show ?thesis .
qed

text \<open>
  C10. \<^verbatim>\<open>search_by_keywords\<close> with no keywords returns the empty list, whatever the limit;
  a query whose text gives no keywords returns the empty list and never calls the
  embedding model.
\<close>

theorem no_keywords_no_results:
  "search_by_keywords tbl [] limit = [] \<and>
   (extract_keywords sw q = [] \<longrightarrow> query sw r q k = (Inr [], []))"
  by (simp add: search_by_keywords_def query_def Let_def)


lemma stopword_keywords: "extract_keywords {''is'', ''it''} ''is it ok'' = []"
  by code_simp

theorem no_keywords_no_results_witness:
  "extract_keywords {''is'', ''it''} ''is it ok'' = [] \<and>
   query {''is'', ''it''} with_failing_model ''is it ok'' 10 = (Inr [], [])"
  using no_keywords_no_results [of "[]" 0 "{''is'', ''it''}" "''is it ok''" with_failing_model 10]
        stopword_keywords
  by simp

section \<open>Properties of the document store\<close>

lemma length_filter_other_ids:
  "distinct (map row_id tbl) \<Longrightarrow> i \<in> set (map row_id tbl) \<Longrightarrow>
     Suc (length (filter (\<lambda>old. row_id old \<noteq> i) tbl)) = length tbl"
proof (induction tbl)
  case Nil
  then show ?case by simp
next
  case (Cons r tbl)
  show ?case
  proof (cases "row_id r = i")
    case True
    with Cons.prems have "i \<notin> set (map row_id tbl)" by auto
    then have "filter (\<lambda>old. row_id old \<noteq> i) tbl = tbl"
      by (induction tbl) auto
    with True show ?thesis by simp
  next
    case False
    with Cons show ?thesis by auto
  qed
qed

lemma length_filter_absent_id:
  "i \<notin> set (map row_id tbl) \<Longrightarrow> filter (\<lambda>old. row_id old \<noteq> i) tbl = tbl"
  by (induction tbl) auto

lemma find_filter_other_ids:
  "find (\<lambda>r. row_id r = i) (filter (\<lambda>old. row_id old \<noteq> i) tbl) = None"
  by (induction tbl) auto

lemma find_filter_keeps:
  "j \<noteq> i \<Longrightarrow> find (\<lambda>r. row_id r = j) (filter (\<lambda>old. row_id old \<noteq> i) tbl) =
                 find (\<lambda>r. row_id r = j) tbl"
  by (induction tbl) auto

lemma find_append:
  "find P (xs @ ys) = (case find P xs of None \<Rightarrow> find P ys | Some x \<Rightarrow> Some x)"
  by (induction xs) auto

lemma get_after_insert_or_replace:
  "get_test_case (insert_or_replace r tbl) (row_id r) = Some r"
  by (simp add: get_test_case_def insert_or_replace_def find_append find_filter_other_ids)

lemma get_other_after_insert_or_replace:
  "j \<noteq> row_id r \<Longrightarrow> get_test_case (insert_or_replace r tbl) j = get_test_case tbl j"
  by (simp add: get_test_case_def insert_or_replace_def find_append find_filter_keeps
           split: option.splits)

lemma distinct_insert_or_replace:
  "distinct (map row_id tbl) \<Longrightarrow> distinct (map row_id (insert_or_replace r tbl))"
  by (auto simp: insert_or_replace_def distinct_map_filter)

lemma length_insert_or_replace:
  "distinct (map row_id tbl) \<Longrightarrow>
     length (insert_or_replace r tbl) =
       (if row_id r \<in> set (map row_id tbl) then length tbl else Suc (length tbl))"
  using length_filter_other_ids [of tbl "row_id r"] length_filter_absent_id [of "row_id r" tbl]
  by (simp add: insert_or_replace_def)

lemma store_test_case_distinct:
  "store_test_case md5 now tbl tc vec = Inr (tbl', i) \<Longrightarrow> distinct (map row_id tbl) \<Longrightarrow>
     distinct (map row_id tbl')"
  by (auto simp: store_test_case_def Let_def distinct_insert_or_replace split: option.splits)

text \<open>
  C7. Storing a test case whose id is already in the store leaves the number of rows
  unchanged; the row found under that id afterwards has every column set from the new
  call (title, priority, tags, components, text blob, vector, metadata, timestamps),
  nothing from the old row; the other rows are untouched.
\<close>

theorem store_test_case_overwrites:
  assumes "distinct (map row_id tbl)"
    and "store_test_case md5 now tbl tc vec = Inr (tbl', i)"
    and "i \<in> set (map row_id tbl)"
  shows "total_test_cases tbl' = total_test_cases tbl \<and>
         i = (case tc_id tc of Some given \<Rightarrow> given | None \<Rightarrow> generate_id md5 tc) \<and>
         (\<exists>t. tc_title tc = Some t \<and>
            get_test_case tbl' i =
              Some \<lparr> row_id = i, row_title = t, row_priority = Some (stored_priority tc),
                     row_tags = tc_tags tc, row_components = extract_components tc,
                     row_text_blob = text_blob_of tc,
                     row_vector = (case vec of None \<Rightarrow> None
                                   | Some v \<Rightarrow> if v = [] then None else Some v),
                     row_metadata = metadata_of tc, row_created_at = now,
                     row_updated_at = now \<rparr>) \<and>
         (\<forall>j. j \<noteq> i \<longrightarrow> get_test_case tbl' j = get_test_case tbl j) \<and>
         distinct (map row_id tbl')"
proof -
  from assms(2) obtain t where t: "tc_title tc = Some t"
    by (auto simp: store_test_case_def Let_def split: option.splits)
  define new_row where "new_row =
     \<lparr> row_id = i, row_title = t, row_priority = Some (stored_priority tc),
       row_tags = tc_tags tc, row_components = extract_components tc,
       row_text_blob = text_blob_of tc,
       row_vector = (case vec of None \<Rightarrow> None | Some v \<Rightarrow> if v = [] then None else Some v),
       row_metadata = metadata_of tc, row_created_at = now, row_updated_at = now \<rparr>"
  from assms(2) t have i: "i = (case tc_id tc of Some given \<Rightarrow> given | None \<Rightarrow> generate_id md5 tc)"
    and tbl': "tbl' = insert_or_replace new_row tbl"
    by (auto simp: store_test_case_def Let_def new_row_def)
  have rid: "row_id new_row = i" by (simp add: new_row_def)
  have len: "total_test_cases tbl' = total_test_cases tbl"
    using length_insert_or_replace [OF assms(1), of new_row] assms(3)
    by (simp add: total_test_cases_def tbl' rid)
  have got: "get_test_case tbl' i = Some new_row"
    using get_after_insert_or_replace [of new_row tbl] by (simp add: tbl' rid)
  have others: "\<forall>j. j \<noteq> i \<longrightarrow> get_test_case tbl' j = get_test_case tbl j"
    using get_other_after_insert_or_replace [of _ new_row tbl] by (simp add: tbl' rid)
  have dist: "distinct (map row_id tbl')"
    unfolding tbl' by (rule distinct_insert_or_replace [OF assms(1)])
  from len i t got others dist show ?thesis
    unfolding new_row_def by blast
qed

lemma store_v2:
  "store_test_case (\<lambda>s. s) 9 [login_row, checkout_row_v1, logout_row] checkout_v2 None =
     Inr ([login_row, logout_row, checkout_row_v2], ''TC-7'')"
  by code_simp

lemma store_v1:
  "store_test_case (\<lambda>s. s) 5 [login_row, logout_row] checkout_v1 (Some [1, 2]) =
     Inr ([login_row, logout_row, checkout_row_v1], ''TC-7'')"
  by code_simp

theorem store_test_case_overwrites_witness:
  "total_test_cases [login_row, logout_row, checkout_row_v2] =
     total_test_cases [login_row, checkout_row_v1, logout_row] \<and>
   get_test_case [login_row, logout_row, checkout_row_v2] ''TC-7'' = Some checkout_row_v2"
proof -
  have d: "distinct (map row_id [login_row, checkout_row_v1, logout_row])"
    by (simp add: login_row_def checkout_row_v1_def logout_row_def)
  have m: "''TC-7'' \<in> set (map row_id [login_row, checkout_row_v1, logout_row])"
    by (simp add: checkout_row_v1_def)
  have p: "stored_priority checkout_v2 = ''P3''"
    by code_simp
  have c: "extract_components checkout_v2 = [''api-billing'', ''UI is up'']"
    by code_simp
  have b: "text_blob_of checkout_v2 = ''apply voucher total drops''"
    by code_simp
  have md: "metadata_of checkout_v2 =
              \<lparr> preconditions = [''UI is up''], original_file = ''tc7.json'', created_by = ''qa'' \<rparr>"
    by (simp add: metadata_of_def checkout_v2_def)
  have t: "tc_title checkout_v2 = Some ''Checkout with voucher''"
    by (simp add: checkout_v2_def)
  have g: "tc_tags checkout_v2 = [''api-billing'']"
    by (simp add: checkout_v2_def)
  have i: "tc_id checkout_v2 = Some ''TC-7''"
    by (simp add: checkout_v2_def)
  from store_test_case_overwrites [OF d store_v2 m] show ?thesis
    by (simp add: checkout_row_v2_def p c b md t g i)
qed

section \<open>Properties of loading from the cache\<close>

text \<open>
  C8 (counterexample). The claim as the specification states it fails: with the database
  file present and the store opened, a failure to construct the embedding model is caught
  by the handler of \<^verbatim>\<open>load_from_cache\<close>, which returns \<^verbatim>\<open>None\<close> and no keyword-only
  retriever.
\<close>

theorem load_from_cache_model_failure:
  "load_from_cache
     \<lparr> db_exists = Inr True, open_store = Inr [login_row, logout_row], config_file = None,
       import_model = Inl ImportError, print_warning = Inr () \<rparr> None = Inr None"
  by (simp add: load_from_cache_def load_from_cache_try_def load_embedding_model_def init_def)

lemma init_no_model: "embedding_model (init st cfg) = None"
  by (simp add: init_def)

lemma load_from_cache_try_model_failure:
  "import_model env = Inl e \<Longrightarrow> isl (load_from_cache_try env cfg)"
  by (auto simp: load_from_cache_try_def load_embedding_model_def init_no_model
           split: sum.splits option.splits)

text \<open>What the unprotected steps raise reaches the caller.\<close>

lemma load_from_cache_unprotected:
  "(db_exists env = Inl e \<longrightarrow> load_from_cache env cfg = Inl e) \<and>
   (db_exists env = Inr True \<and> isl (load_from_cache_try env cfg) \<and> print_warning env = Inl e \<longrightarrow>
      load_from_cache env cfg = Inl e)"
  by (auto simp: load_from_cache_def isl_def split: sum.splits)

text \<open>
  C8, amended. Let the existence check of the database file return and the handler's
  warning print. Then \<^verbatim>\<open>load_from_cache\<close> returns \<^verbatim>\<open>None\<close> when the file is missing,
  when the store cannot be opened, when the dumped configuration cannot be read, and
  also when the embedding model cannot be attached. When the store opens, the
  configuration is absent or readable and the model is attached, it returns the
  retriever bound to that store, with the dumped configuration if there is one and the
  supplied or default one otherwise, and with the model attached. Every retriever it
  returns is bound to the opened store and has the model attached.
\<close>

theorem load_from_cache_outcomes:
  assumes "db_exists env = Inr found" and "print_warning env = Inr ()"
  shows "(\<not> found \<longrightarrow> load_from_cache env cfg = Inr None) \<and>
         (isl (open_store env) \<longrightarrow> load_from_cache env cfg = Inr None) \<and>
         ((\<exists>e. config_file env = Some (Inl e)) \<longrightarrow> load_from_cache env cfg = Inr None) \<and>
         (isl (import_model env) \<longrightarrow> load_from_cache env cfg = Inr None) \<and>
         (found \<and> open_store env = Inr st \<and> config_file env = None \<and> import_model env = Inr m \<longrightarrow>
            load_from_cache env cfg =
              Inr (Some \<lparr> store = st,
                          config = (case cfg of None \<Rightarrow> default_config | Some c \<Rightarrow> c),
                          embedding_model = Some m \<rparr>)) \<and>
         (found \<and> open_store env = Inr st \<and> config_file env = Some (Inr config_data) \<and>
          import_model env = Inr m \<longrightarrow>
            load_from_cache env cfg =
              Inr (Some \<lparr> store = st, config = config_data, embedding_model = Some m \<rparr>)) \<and>
         (\<forall>r. load_from_cache env cfg = Inr (Some r) \<longrightarrow>
              open_store env = Inr (store r) \<and>
              (\<exists>m'. import_model env = Inr m' \<and> embedding_model r = Some m'))"
proof -
  have caught: "load_from_cache env cfg = Inr None" if "\<not> found \<or> isl (load_from_cache_try env cfg)"
    using that assms by (auto simp: load_from_cache_def isl_def)
  have a: "\<not> found \<longrightarrow> load_from_cache env cfg = Inr None"
    using caught by blast
  have b: "isl (open_store env) \<longrightarrow> load_from_cache env cfg = Inr None"
  proof
    assume "isl (open_store env)"
    then have "isl (load_from_cache_try env cfg)"
      by (auto simp: load_from_cache_try_def isl_def)
    then show "load_from_cache env cfg = Inr None"
      using caught by blast
  qed
  have c: "(\<exists>e. config_file env = Some (Inl e)) \<longrightarrow> load_from_cache env cfg = Inr None"
  proof
    assume "\<exists>e. config_file env = Some (Inl e)"
    then have "isl (load_from_cache_try env cfg)"
      by (auto simp: load_from_cache_try_def split: sum.splits)
    then show "load_from_cache env cfg = Inr None"
      using caught by blast
  qed
  have d: "isl (import_model env) \<longrightarrow> load_from_cache env cfg = Inr None"
  proof
    assume "isl (import_model env)"
    then obtain e where "import_model env = Inl e"
      by (auto simp: isl_def)
    then have "isl (load_from_cache_try env cfg)"
      by (rule load_from_cache_try_model_failure)
    then show "load_from_cache env cfg = Inr None"
      using caught by blast
  qed
  have e: "found \<and> open_store env = Inr st \<and> config_file env = None \<and> import_model env = Inr m \<longrightarrow>
            load_from_cache env cfg =
              Inr (Some \<lparr> store = st,
                          config = (case cfg of None \<Rightarrow> default_config | Some c \<Rightarrow> c),
                          embedding_model = Some m \<rparr>)"
    using assms(1)
    by (simp add: load_from_cache_def load_from_cache_try_def load_embedding_model_def init_def)
  have f: "found \<and> open_store env = Inr st \<and> config_file env = Some (Inr config_data) \<and>
          import_model env = Inr m \<longrightarrow>
            load_from_cache env cfg =
              Inr (Some \<lparr> store = st, config = config_data, embedding_model = Some m \<rparr>)"
    using assms(1)
    by (simp add: load_from_cache_def load_from_cache_try_def load_embedding_model_def init_def)
  have g: "\<forall>r. load_from_cache env cfg = Inr (Some r) \<longrightarrow>
              open_store env = Inr (store r) \<and>
              (\<exists>m'. import_model env = Inr m' \<and> embedding_model r = Some m')"
    using assms
    by (auto simp: load_from_cache_def load_from_cache_try_def load_embedding_model_def
          init_def split: sum.splits option.splits if_splits)
  from a b c d e f g show ?thesis by blast
qed

theorem load_from_cache_outcomes_witness:
  "load_from_cache env_model_missing (Some strict_config) = Inr None \<and>
   load_from_cache env_no_file (Some strict_config) = Inr None \<and>
   load_from_cache env_ready (Some strict_config) =
     Inr (Some \<lparr> store = [login_row], config = strict_config,
                 embedding_model = Some unit_encoder \<rparr>) \<and>
   load_from_cache env_ready_dumped (Some strict_config) =
     Inr (Some \<lparr> store = [login_row], config = keyword_config,
                 embedding_model = Some unit_encoder \<rparr>)"
proof -
  have m1: "db_exists env_model_missing = Inr True" and m2: "print_warning env_model_missing = Inr ()"
    and m3: "isl (import_model env_model_missing)"
    by (simp_all add: env_model_missing_def)
  have n1: "db_exists env_no_file = Inr False" and n2: "print_warning env_no_file = Inr ()"
    by (simp_all add: env_no_file_def)
  have r1: "db_exists env_ready = Inr True" and r2: "print_warning env_ready = Inr ()"
    and r3: "open_store env_ready = Inr [login_row]" and r4: "config_file env_ready = None"
    and r5: "import_model env_ready = Inr unit_encoder"
    by (simp_all add: env_ready_def)
  have d1: "db_exists env_ready_dumped = Inr True" and d2: "print_warning env_ready_dumped = Inr ()"
    and d3: "open_store env_ready_dumped = Inr [login_row]"
    and d4: "config_file env_ready_dumped = Some (Inr keyword_config)"
    and d5: "import_model env_ready_dumped = Inr unit_encoder"
    by (simp_all add: env_ready_dumped_def)
  have a: "load_from_cache env_model_missing (Some strict_config) = Inr None"
    using load_from_cache_outcomes [OF m1 m2, of "Some strict_config"] m3 by blast
  have b: "load_from_cache env_no_file (Some strict_config) = Inr None"
    using load_from_cache_outcomes [OF n1 n2, of "Some strict_config"] by blast
  have "load_from_cache env_ready (Some strict_config) =
          Inr (Some \<lparr> store = [login_row],
                      config = (case Some strict_config of None \<Rightarrow> default_config | Some c \<Rightarrow> c),
                      embedding_model = Some unit_encoder \<rparr>)"
    using load_from_cache_outcomes [OF r1 r2, of "Some strict_config" "[login_row]" unit_encoder]
          r3 r4 r5
    by blast
  then have c: "load_from_cache env_ready (Some strict_config) =
          Inr (Some \<lparr> store = [login_row], config = strict_config,
                      embedding_model = Some unit_encoder \<rparr>)"
    by simp
  have d: "load_from_cache env_ready_dumped (Some strict_config) =
          Inr (Some \<lparr> store = [login_row], config = keyword_config,
                      embedding_model = Some unit_encoder \<rparr>)"
    using load_from_cache_outcomes
            [OF d1 d2, of "Some strict_config" "[login_row]" unit_encoder keyword_config]
          d3 d4 d5
    by blast
  from a b c d show ?thesis by blast
qed

section \<open>Properties of keyword search\<close>

lemma like_percent_all: "sql_like ''%'' s"
  by (induction s) auto

lemma like_percent:
  "sql_like (CHR ''%'' # pat) s \<longleftrightarrow> (\<exists>pre suf. s = pre @ suf \<and> sql_like pat suf)"
proof (induction s)
  case Nil
  then show ?case by simp
next
  case (Cons c cs)
  show ?case
  proof
    assume "sql_like (CHR ''%'' # pat) (c # cs)"
    then have "sql_like pat (c # cs) \<or> sql_like (CHR ''%'' # pat) cs" by simp
    then show "\<exists>pre suf. c # cs = pre @ suf \<and> sql_like pat suf"
    proof
      assume "sql_like pat (c # cs)"
      then have "c # cs = [] @ (c # cs) \<and> sql_like pat (c # cs)" by simp
      then show ?thesis by blast
    next
      assume "sql_like (CHR ''%'' # pat) cs"
      with Cons.IH obtain pre suf where "cs = pre @ suf" "sql_like pat suf" by blast
      then have "c # cs = (c # pre) @ suf \<and> sql_like pat suf" by simp
      then show ?thesis by blast
    qed
  next
    assume "\<exists>pre suf. c # cs = pre @ suf \<and> sql_like pat suf"
    then obtain pre suf where eq: "c # cs = pre @ suf" and m: "sql_like pat suf" by blast
    show "sql_like (CHR ''%'' # pat) (c # cs)"
    proof (cases pre)
      case Nil
      with eq m have "sql_like pat (c # cs)" by simp
      then show ?thesis by simp
    next
      case (Cons a pre')
      with eq have "cs = pre' @ suf" by simp
      with m Cons.IH have "sql_like (CHR ''%'' # pat) cs" by blast
      then show ?thesis by simp
    qed
  qed
qed

lemma like_plain_prefix:
  assumes "\<forall>c\<in>set k. c \<noteq> CHR ''%'' \<and> c \<noteq> CHR ''_''"
  shows "sql_like (k @ ''%'') s \<longleftrightarrow>
           (\<exists>m rest. s = m @ rest \<and> map lower_char m = map lower_char k)"
  using assms
proof (induction k arbitrary: s)
  case Nil
  then show ?case by (simp add: like_percent_all)
next
  case (Cons p ps)
  then have p: "p \<noteq> CHR ''%''" "p \<noteq> CHR ''_''" and ps: "\<forall>c\<in>set ps. c \<noteq> CHR ''%'' \<and> c \<noteq> CHR ''_''"
    by auto
  show ?case
  proof (cases s)
    case Nil
    with p show ?thesis by simp
  next
    case (Cons c cs)
    have "sql_like ((p # ps) @ ''%'') (c # cs) \<longleftrightarrow>
            lower_char p = lower_char c \<and> sql_like (ps @ ''%'') cs"
      using p by simp
    also have "\<dots> \<longleftrightarrow> lower_char p = lower_char c \<and>
                 (\<exists>m rest. cs = m @ rest \<and> map lower_char m = map lower_char ps)"
      using Cons.IH [OF ps] by simp
    also have "\<dots> \<longleftrightarrow> (\<exists>m rest. c # cs = m @ rest \<and> map lower_char m = map lower_char (p # ps))"
    proof
      assume "lower_char p = lower_char c \<and>
                 (\<exists>m rest. cs = m @ rest \<and> map lower_char m = map lower_char ps)"
      then obtain m rest where "lower_char p = lower_char c" "cs = m @ rest"
        "map lower_char m = map lower_char ps" by blast
      then have "c # cs = (c # m) @ rest \<and> map lower_char (c # m) = map lower_char (p # ps)"
        by simp
      then show "\<exists>m rest. c # cs = m @ rest \<and> map lower_char m = map lower_char (p # ps)"
        by blast
    next
      assume "\<exists>m rest. c # cs = m @ rest \<and> map lower_char m = map lower_char (p # ps)"
      then obtain m rest where eq: "c # cs = m @ rest"
        and mm: "map lower_char m = map lower_char (p # ps)" by blast
      from mm obtain a m' where m: "m = a # m'" by (cases m) auto
      with eq mm have "lower_char p = lower_char c" "cs = m' @ rest"
        "map lower_char m' = map lower_char ps" by auto
      then show "lower_char p = lower_char c \<and>
                 (\<exists>m rest. cs = m @ rest \<and> map lower_char m = map lower_char ps)"
        by blast
    qed
    finally show ?thesis using Cons by simp
  qed
qed

lemma like_plain_substring:
  assumes "\<forall>c\<in>set k. c \<noteq> CHR ''%'' \<and> c \<noteq> CHR ''_''"
  shows "sql_like (''%'' @ k @ ''%'') s \<longleftrightarrow> sublist (map lower_char k) (map lower_char s)"
proof -
  have "sql_like (''%'' @ k @ ''%'') s \<longleftrightarrow>
          (\<exists>pre m rest. s = pre @ m @ rest \<and> map lower_char m = map lower_char k)"
    using like_percent [of "k @ ''%''" s] like_plain_prefix [OF assms] by auto
  also have "\<dots> \<longleftrightarrow> sublist (map lower_char k) (map lower_char s)"
  proof
    assume "\<exists>pre m rest. s = pre @ m @ rest \<and> map lower_char m = map lower_char k"
    then obtain pre m rest where "s = pre @ m @ rest" "map lower_char m = map lower_char k"
      by blast
    then have "map lower_char s = map lower_char pre @ map lower_char k @ map lower_char rest"
      by simp
    then show "sublist (map lower_char k) (map lower_char s)"
      unfolding sublist_def by blast
  next
    assume "sublist (map lower_char k) (map lower_char s)"
    then obtain ps ss where "map lower_char s = ps @ map lower_char k @ ss"
      unfolding sublist_def by blast
    then have "\<exists>us vs. s = us @ vs \<and> ps = map lower_char us \<and>
                 map lower_char k @ ss = map lower_char vs"
      by (simp add: map_eq_append_conv)
    then obtain pre vs where s: "s = pre @ vs" and vs: "map lower_char k @ ss = map lower_char vs"
      by blast
    from vs have "\<exists>m rest. vs = m @ rest \<and> map lower_char k = map lower_char m \<and>
                    ss = map lower_char rest"
      by (simp add: append_eq_map_conv)
    then obtain m rest where v: "vs = m @ rest" and mk: "map lower_char k = map lower_char m"
      by blast
    from s v mk have "s = pre @ m @ rest" "map lower_char m = map lower_char k"
      by simp_all
    then show "\<exists>pre m rest. s = pre @ m @ rest \<and> map lower_char m = map lower_char k"
      by blast
  qed
  finally show ?thesis .
qed

lemma lower_char_idem: "lower_char (lower_char c) = lower_char c"
  by (auto simp: lower_char_def upper_letters_def lower_letters_def)

lemma lower_char_wildcards:
  "lower_char c = CHR ''%'' \<longleftrightarrow> c = CHR ''%''" "lower_char c = CHR ''_'' \<longleftrightarrow> c = CHR ''_''"
  by (auto simp: lower_char_def upper_letters_def lower_letters_def)

text \<open>
  For a keyword without the characters \<^verbatim>\<open>%\<close> and \<^verbatim>\<open>_\<close> the SQL condition is the
  case-insensitive substring test on the title, the text blob and the stored JSON text
  of tags and components.
\<close>

lemma plain_keyword_condition:
  assumes "\<forall>c\<in>set keyword. c \<noteq> CHR ''%'' \<and> c \<noteq> CHR ''_''"
  shows "keyword_condition r keyword \<longleftrightarrow>
           py_in (py_lower keyword) (py_lower (row_title r)) \<or>
           py_in (py_lower keyword) (py_lower (row_text_blob r)) \<or>
           py_in (py_lower keyword) (py_lower (json_dumps_strs (row_tags r))) \<or>
           py_in (py_lower keyword) (py_lower (json_dumps_strs (row_components r)))"
proof -
  have plain: "\<forall>c\<in>set (py_lower keyword). c \<noteq> CHR ''%'' \<and> c \<noteq> CHR ''_''"
    using assms by (auto simp: py_lower_def lower_char_wildcards)
  have "sql_like (like_param keyword) (sql_lower s) \<longleftrightarrow> py_in (py_lower keyword) (py_lower s)" for s
    using like_plain_substring [OF plain, of "sql_lower s"]
    by (simp add: like_param_def py_in_def sql_lower_def py_lower_def lower_char_idem comp_def)
  then show ?thesis by (simp add: keyword_condition_def)
qed

lemma search_by_keywords_matches:
  assumes "c \<in> set (search_by_keywords tbl keywords limit)"
  shows "\<exists>r\<in>set tbl. c = row_to_candidate r \<and> (\<exists>kw\<in>set keywords. keyword_condition r kw)"
proof -
  from assms have ne: "keywords \<noteq> []"
    by (auto simp: search_by_keywords_def split: if_splits)
  with assms obtain r where c: "c = row_to_candidate r"
    and r: "r \<in> set (sql_limit limit (sort_key (\<lambda>r. (row_priority r, row_title r))
                        (matching_rows tbl keywords)))"
    by (auto simp: search_by_keywords_def)
  from r have "r \<in> set (matching_rows tbl keywords)"
    by (auto simp: sql_limit_def split: if_splits dest: in_set_takeD)
  then have "r \<in> set tbl" "\<exists>kw\<in>set keywords. keyword_condition r kw"
    by (auto simp: matching_rows_def list_ex_iff)
  with c show ?thesis by blast
qed

lemma sign_in_keywords: "extract_keywords {} ''sign_in'' = [''sign_in'']"
  by code_simp

lemma sign_in_found:
  "search_by_keywords [sign_in_row] [''sign_in''] 200 = [row_to_candidate sign_in_row]"
  by code_simp

text \<open>
  C2 at a failing input. The query text \<^verbatim>\<open>sign_in\<close> gives the keyword \<^verbatim>\<open>sign_in\<close>, whose
  underscore \<^verbatim>\<open>LIKE\<close> reads as a wildcard: the search returns the row titled
  \<^verbatim>\<open>Sign in page\<close>, although the keyword is a substring of none of its title, text blob,
  tags and components.
\<close>

theorem search_by_keywords_underscore:
  "extract_keywords {} ''sign_in'' = [''sign_in''] \<and>
   search_by_keywords [sign_in_row] [''sign_in''] 200 = [row_to_candidate sign_in_row] \<and>
   \<not> py_in ''sign_in'' (py_lower (row_title sign_in_row)) \<and>
   \<not> py_in ''sign_in'' (py_lower (row_text_blob sign_in_row)) \<and>
   \<not> py_in ''sign_in'' (py_lower (json_dumps_strs (row_tags sign_in_row))) \<and>
   \<not> py_in ''sign_in'' (py_lower (json_dumps_strs (row_components sign_in_row)))"
proof -
  have a: "\<not> py_in ''sign_in'' (py_lower (row_title sign_in_row))"
    by code_simp
  have b: "\<not> py_in ''sign_in'' (py_lower (row_text_blob sign_in_row))"
    by code_simp
  have c: "\<not> py_in ''sign_in'' (py_lower (json_dumps_strs (row_tags sign_in_row)))"
    by code_simp
  have d: "\<not> py_in ''sign_in'' (py_lower (json_dumps_strs (row_components sign_in_row)))"
    by code_simp
  from sign_in_keywords sign_in_found a b c d show ?thesis by blast
qed

section \<open>The ranking of stored rows returns\<close>

lemma store_test_case_normalised:
  assumes "store_test_case md5 now tbl tc vec = Inr (tbl', i)"
    and "\<forall>r\<in>set tbl. \<exists>p. row_priority r = Some p \<and> startswith_P p"
  shows "\<forall>r\<in>set tbl'. \<exists>p. row_priority r = Some p \<and> startswith_P p"
  using assms
  by (auto simp: store_test_case_def Let_def insert_or_replace_def stored_priority_P
           split: option.splits)

lemma score_candidates_returns:
  assumes "\<forall>c\<in>set cs. \<exists>v. calculate_priority_score (priority c) = Inr v"
  shows "\<exists>scored. score_candidates cfg ql cs = Inr scored"
  using assms
proof (induction cs)
  case Nil
  then show ?case by simp
next
  case (Cons c cs)
  then obtain v scored where "calculate_priority_score (priority c) = Inr v"
    "score_candidates cfg ql cs = Inr scored"
    by auto
  then show ?case by (simp add: score_candidate_def Let_def)
qed

lemma search_by_keywords_rows:
  assumes "c \<in> set (search_by_keywords tbl keywords limit)"
  shows "\<exists>r\<in>set tbl. c = row_to_candidate r"
  using search_by_keywords_matches [OF assms] by blast

lemma ranking_returns:
  assumes "\<forall>r\<in>set tbl. \<exists>p. row_priority r = Some p \<and> startswith_P p"
  shows "\<exists>res. apply_ranking cfg q (search_by_keywords tbl keywords limit) = Inr res"
proof -
  have "\<exists>v. calculate_priority_score (priority c) = Inr v"
    if "c \<in> set (search_by_keywords tbl keywords limit)" for c
  proof -
    from search_by_keywords_rows [OF that] obtain r where "r \<in> set tbl" "c = row_to_candidate r"
      by blast
    with assms obtain p where "priority c = Some p" "startswith_P p"
      by (auto simp: row_to_candidate_def)
    with startswith_P_scored show ?thesis by simp
  qed
  then obtain scored where
    "score_candidates cfg (py_lower q) (search_by_keywords tbl keywords limit) = Inr scored"
    using score_candidates_returns by blast
  then show ?thesis by (simp add: apply_ranking_def)
qed

lemma keyword_only_query_returns:
  assumes "embedding_model r = None"
    and "\<forall>x\<in>set (store r). \<exists>p. row_priority x = Some p \<and> startswith_P p"
  shows "\<exists>res. query sw r q k = (Inr res, [])"
proof -
  from ranking_returns [OF assms(2)] obtain res where
    "apply_ranking (config r) q
       (search_by_keywords (store r) (extract_keywords sw q) (max_candidates (config r))) = Inr res"
    by blast
  with assms(1) show ?thesis by (simp add: query_def Let_def)
qed

lemma rerank_unit:
  "semantic_rerank unit_encoder ''user'' [row_to_candidate login_row] =
     Inr [(row_to_candidate login_row)\<lparr> semantic_score := Some 1 \<rparr>]"
  by (simp add: semantic_rerank_def get_embedding_def unit_encoder_def row_to_candidate_def
        login_row_def cosine_similarity_def norm_vec_def dot_product_def)

end
